theory Spec2Isabelle
  imports Complex_Main "HOL-Library.Word"
begin

section \<open>Strings of the harness\<close>

text \<open>
  Outcome tokens are JavaScript strings; they are modelled as \<open>string\<close>. The harness
  inspects them with \<open>String.prototype.includes\<close> only: \<open>js_includes r k\<close> is
  \<open>r.includes(k)\<close>, true when \<open>k\<close> occurs in \<open>r\<close> at some index.
\<close>

fun startsWith :: "string \<Rightarrow> string \<Rightarrow> bool" where
  "startsWith s [] = True"
| "startsWith [] (k # ks) = False"
| "startsWith (c # cs) (k # ks) = (c = k \<and> startsWith cs ks)"

fun js_includes :: "string \<Rightarrow> string \<Rightarrow> bool" where
  "js_includes [] k = (k = [])"
| "js_includes (c # cs) k = (startsWith (c # cs) k \<or> js_includes cs k)"


text \<open>
  \<open>result.trim()\<close>: white space is removed at both ends. A \<open>char\<close> stands for a code
  unit below 256; the white space among those is space, tab, line feed, vertical tab,
  form feed, carriage return and the no-break space (U+00A0). The scripts' output is
  ASCII.
\<close>

definition is_space :: "char \<Rightarrow> bool" where
  "is_space ch =
     (ch \<in> set [CHR '' '', CHR 0x09, CHR 0x0A, CHR 0x0B, CHR 0x0C, CHR 0x0D, CHR 0xA0])"

definition trim :: "string \<Rightarrow> string" where
  "trim s = rev (dropWhile is_space (rev (dropWhile is_space s)))"

text \<open>Decimal rendering of a length, as Python's f-string \<open>{len(xs)}\<close> prints it.\<close>

definition digit_char :: "nat \<Rightarrow> char" where
  "digit_char d = char_of (48 + d)"

function show_nat :: "nat \<Rightarrow> string" where
  "show_nat n = (if n < 10 then [digit_char n] else show_nat (n div 10) @ [digit_char (n mod 10)])"
  by pat_completeness auto
termination
  by (relation "measure (\<lambda>n. n)") auto

text \<open>Python's \<open>sep.join(parts)\<close>.\<close>

fun join :: "string \<Rightarrow> string list \<Rightarrow> string" where
  "join sep [] = []"
| "join sep [p] = p"
| "join sep (p # q # ps) = p @ sep @ join sep (q # ps)"

section \<open>The Target Client\<close>

text \<open>
  The system under test (\<open>ControlModule\<close>) is not part of the harness. The scripts use
  three of its members: \<open>setup_treatment(dose, x, y)\<close>, which changes the module and
  returns a value that the scripts only test for truth, and the attributes
  \<open>setup_counter\<close> and \<open>dose_value\<close>. A target is therefore a parameter of the model:
  a state type \<open>'s\<close> with these three operations. Python integers are \<open>int\<close>.
\<close>

record 's control_module =
  setup_treatment :: "int \<Rightarrow> int \<Rightarrow> int \<Rightarrow> 's \<Rightarrow> bool \<times> 's"
  setup_counter :: "'s \<Rightarrow> int"
  dose_value :: "'s \<Rightarrow> int"

section \<open>The overflow stress script\<close>

text \<open>
  The Python program of \<open>performOverflowTest\<close>. Its variables are the fields of
  \<open>overflow_state\<close>; \<open>c_module\<close> is the object \<open>c\<close>. One pass of the body of
  \<open>for patient in range(1, 301)\<close> is \<open>patient_iteration\<close>. The progress lines the
  script prints on the way are console output and are left out; the line it prints last,
  which the JavaScript checks read, is \<open>result_line\<close>.
\<close>

record 's overflow_state =
  c_module :: 's
  critical_points :: "(int \<times> int) list"
  safety_bypasses :: "int list"
  overflow_detected :: bool

definition initial_state :: "'s \<Rightarrow> 's overflow_state" where
  "initial_state c =
     \<lparr>c_module = c, critical_points = [], safety_bypasses = [], overflow_detected = False\<rparr>"

definition patient_iteration ::
  "'s control_module \<Rightarrow> 's overflow_state \<Rightarrow> int \<Rightarrow> 's overflow_state" where
  "patient_iteration cm st patient =
     (let (result, c1) =
            setup_treatment cm (200 + patient mod 100) (patient mod 50) (patient mod 30)
              (c_module st);
          current_counter = setup_counter cm c1;
          points = (if current_counter \<in> set [253, 254, 255, 0, 1, 2]
                    then critical_points st @ [(patient, current_counter)]
                    else critical_points st)
      in if current_counter = 0 \<and> patient > 255
         then (let (safety_test, c2) = setup_treatment cm 99999 0 0 c1
               in \<lparr>c_module = c2,
                   critical_points = points,
                   safety_bypasses =
                     (if safety_test \<and> dose_value cm c2 = 99999
                      then safety_bypasses st @ [patient] else safety_bypasses st),
                   overflow_detected = True\<rparr>)
         else \<lparr>c_module = c1,
               critical_points = points,
               safety_bypasses = safety_bypasses st,
               overflow_detected = overflow_detected st\<rparr>)"

fun run_patients ::
  "'s control_module \<Rightarrow> 's overflow_state \<Rightarrow> int list \<Rightarrow> 's overflow_state" where
  "run_patients cm st [] = st"
| "run_patients cm st (patient # rest) = run_patients cm (patient_iteration cm st patient) rest"

definition overflow_loop :: "'s control_module \<Rightarrow> 's \<Rightarrow> 's overflow_state" where
  "overflow_loop cm c = run_patients cm (initial_state c) [1..300]"

definition result_parts :: "'s overflow_state \<Rightarrow> string list" where
  "result_parts st =
     (if overflow_detected st then [''OVERFLOW_DETECTED''] else []) @
     (if safety_bypasses st \<noteq> [] then [''SAFETY_BYPASS''] else []) @
     (if list_ex (\<lambda>point. snd point = 0) (critical_points st) then [''COUNTER_0''] else []) @
     [''CRITICAL_POINTS:'' @ show_nat (length (critical_points st)),
      ''BYPASSES:'' @ show_nat (length (safety_bypasses st))]"

definition result_line :: "'s control_module \<Rightarrow> 's \<Rightarrow> string" where
  "result_line cm c = join '':'' (result_parts (overflow_loop cm c))"

text \<open>
  The counter values the loop reads: the statement \<open>current_counter = c.setup_counter\<close>
  runs once in every pass, after the pass's own setup and before the extra setup of the
  overflow branch. \<open>counter_reads\<close> lists the pairs \<open>(patient, current_counter)\<close> of a run
  in order; it follows the module through the same calls as \<open>patient_iteration\<close>. The
  counter that the extra setup leaves is read by nobody and is not in this list.
\<close>

fun counter_reads :: "'s control_module \<Rightarrow> 's \<Rightarrow> int list \<Rightarrow> (int \<times> int) list" where
  "counter_reads cm c [] = []"
| "counter_reads cm c (patient # rest) =
     (let c1 = snd (setup_treatment cm (200 + patient mod 100) (patient mod 50)
                      (patient mod 30) c);
          current_counter = setup_counter cm c1;
          c2 = (if current_counter = 0 \<and> patient > 255
                then snd (setup_treatment cm 99999 0 0 c1) else c1)
      in (patient, current_counter) # counter_reads cm c2 rest)"

text \<open>
  The Python program of \<open>testSpecificOverflowScenarios\<close>. \<open>repeat_setup cm n\<close> is
  \<open>for i in range(n): c.setup_treatment(100, 0, 0)\<close>; every scenario starts from a module
  of its own, built as \<open>c\<close> is. A scenario is its name, the counter it read and its
  result; in the first one the counter is read before the tuple's setup call runs, in the
  second one after the setup with the invalid dose.
\<close>

fun repeat_setup :: "'s control_module \<Rightarrow> nat \<Rightarrow> 's \<Rightarrow> 's" where
  "repeat_setup cm 0 c = c"
| "repeat_setup cm (Suc n) c = repeat_setup cm n (snd (setup_treatment cm 100 0 0 c))"

definition specific_scenarios ::
  "'s control_module \<Rightarrow> 's \<Rightarrow> (string \<times> int \<times> bool) list" where
  "specific_scenarios cm c =
     (let c1 = repeat_setup cm 255 c;
          at_limit = (''AT_LIMIT'', setup_counter cm c1, fst (setup_treatment cm 100 0 0 c1));
          c2 = repeat_setup cm 256 c;
          (invalid_dose_accepted, c2') = setup_treatment cm 50000 0 0 c2;
          overflow_0 = (''OVERFLOW_0'', setup_counter cm c2', invalid_dose_accepted);
          c3 = repeat_setup cm 257 c;
          after_overflow = (''AFTER_OVERFLOW'', setup_counter cm c3, True)
      in [at_limit, overflow_0, after_overflow])"

text \<open>
  A target with the Counter Model of the specification and nothing else: the setup
  counter is an 8-bit word that every setup advances, every setup is accepted and stores
  its dose. It instantiates the theorems about the driver at a concrete target.
\<close>

record counter8 =
  counter :: "8 word"
  dose :: int

definition counter8_module :: "counter8 control_module" where
  "counter8_module =
     \<lparr>setup_treatment = (\<lambda>d x y s. (True, \<lparr>counter = counter s + 1, dose = d\<rparr>)),
      setup_counter = (\<lambda>s. uint (counter s)),
      dose_value = dose\<rparr>"

definition counter8_init :: counter8 where
  "counter8_init = \<lparr>counter = 0, dose = 0\<rparr>"


text \<open>
  A target that keeps a log: \<open>logged cm\<close> behaves as \<open>cm\<close> and, after every call of
  \<open>setup_treatment\<close>, appends the counter the call left to a list kept beside the
  module. Running the script on it shows the counter after every setup operation the
  script makes.
\<close>

definition logged :: "'s control_module \<Rightarrow> ('s \<times> int list) control_module" where
  "logged cm =
     \<lparr>setup_treatment =
        (\<lambda>d x y sl.
           (let (accepted, s') = setup_treatment cm d x y (fst sl)
            in (accepted, (s', snd sl @ [setup_counter cm s'])))),
      setup_counter = (\<lambda>sl. setup_counter cm (fst sl)),
      dose_value = (\<lambda>sl. dose_value cm (fst sl))\<rparr>"

section \<open>The JavaScript runtime\<close>

text \<open>
  What the scripts throw are \<open>Error\<close> objects; the handlers read their \<open>message\<close>. A
  computation that may throw has a result of type \<open>js_error + 'a\<close>, and
  \<open>try { body } catch (error) { handler }\<close> is \<open>try_catch body handler\<close>.
\<close>

datatype js_error = Error (message: string)

definition try_catch :: "(js_error + 'a) \<Rightarrow> (js_error \<Rightarrow> js_error + 'a) \<Rightarrow> js_error + 'a" where
  "try_catch body handler = (case body of Inl error \<Rightarrow> handler error | Inr v \<Rightarrow> Inr v)"

text \<open>
  The Python programs handed to \<open>execSync\<close>. Each constructor stands for one program
  text; its arguments are the values the template interpolates, in the order they appear
  (the operator's id first).
\<close>

datatype script =
    OverflowTestScript
  | SpecificOverflowScript
  | ExperiencedFastScript int int int int
  | EmergencyRapidScript int int int
  | RoutineEditingScript int int int
  | ModeSwitchingScript int int int
  | StandardScript int int int int
  | NewCautiousScript int int int

record exec_options =
  timeout :: nat
  maxBuffer :: "nat option"

text \<open>
  \<open>require('child_process')\<close> either throws or yields a module whose \<open>execSync\<close> runs a
  command and returns its standard output, or throws (non-zero exit, time-out, buffer
  exceeded). Both are given by the runtime, so they are a parameter.
\<close>

type_synonym child_process = "js_error + (script \<Rightarrow> exec_options \<Rightarrow> js_error + string)"

text \<open>
  The shape shared by every function that runs a script:
  \<open>const { execSync } = require('child_process'); const result = execSync(command, opts);
  return result.trim();\<close>
\<close>

definition run_script :: "child_process \<Rightarrow> script \<Rightarrow> exec_options \<Rightarrow> js_error + string" where
  "run_script cp command opts =
     (case cp of
        Inl error \<Rightarrow> Inl error
      | Inr execSync \<Rightarrow>
          (case execSync command opts of
             Inl error \<Rightarrow> Inl error
           | Inr result \<Rightarrow> Inr (trim result)))"

text \<open>\<open>a % b\<close> on integers (\<open>None\<close> is \<open>NaN\<close>) and \<open>xs[i]\<close> (\<open>None\<close> is \<open>undefined\<close>).\<close>

definition js_rem :: "int \<Rightarrow> int \<Rightarrow> int option" where
  "js_rem a b = (if b = 0 then None else Some (sgn a * (\<bar>a\<bar> mod \<bar>b\<bar>)))"

definition js_index :: "'a list \<Rightarrow> int option \<Rightarrow> 'a option" where
  "js_index xs i =
     (case i of
        None \<Rightarrow> None
      | Some j \<Rightarrow> if 0 \<le> j \<and> j < int (length xs) then Some (xs ! nat j) else None)"

text \<open>A value in a template literal: \<open>undefined\<close> prints as its name.\<close>

definition js_to_string :: "string option \<Rightarrow> string" where
  "js_to_string v = (case v of None \<Rightarrow> ''undefined'' | Some s \<Rightarrow> s)"

text \<open>
  k6's \<open>check(val, sets)\<close> evaluates every predicate of \<open>sets\<close> on \<open>val\<close> and records one
  sample per check, the check's name with whether it passed.
\<close>

definition k6_check :: "'a \<Rightarrow> (string \<times> ('a \<Rightarrow> bool)) list \<Rightarrow> (string \<times> bool) list" where
  "k6_check val sets = map (\<lambda>(name, predicate). (name, predicate val)) sets"


section \<open>Counter overflow stress test\<close>

definition performOverflowTest :: "child_process \<Rightarrow> js_error + string" where
  "performOverflowTest cp =
     try_catch
       (run_script cp OverflowTestScript \<lparr>timeout = 120000, maxBuffer = Some (1024 * 1024)\<rparr>)
       (\<lambda>error. Inr (''ERROR: '' @ message error))"

definition testSpecificOverflowScenarios :: "child_process \<Rightarrow> js_error + string" where
  "testSpecificOverflowScenarios cp =
     try_catch
       (run_script cp SpecificOverflowScript \<lparr>timeout = 30000, maxBuffer = None\<rparr>)
       (\<lambda>error. Inr (''SPECIFIC_ERROR: '' @ message error))"

definition overflow_checks :: "(string \<times> (string \<Rightarrow> bool)) list" where
  "overflow_checks =
     [(''Counter overflow reproduced'', \<lambda>r. js_includes r ''OVERFLOW_DETECTED''),
      (''Safety bypass confirmed'', \<lambda>r. js_includes r ''SAFETY_BYPASS''),
      (''Critical bug present'', \<lambda>r. js_includes r ''COUNTER_0'')]"

definition overflow_default :: "child_process \<Rightarrow> js_error + (string \<times> bool) list" where
  "overflow_default cp =
     (case performOverflowTest cp of
        Inl error \<Rightarrow> Inl error
      | Inr result \<Rightarrow> Inr (k6_check result overflow_checks))"














section \<open>Concurrent operations test\<close>

definition workflows :: "string list" where
  "workflows =
     [''experienced_fast'', ''new_cautious'', ''emergency_rapid'', ''routine_editing'',
      ''mode_switching'']"

definition getWorkflowForOperator :: "int \<Rightarrow> string option" where
  "getWorkflowForOperator vuId = js_index workflows (js_rem vuId (int (length workflows)))"

definition executeExperiencedFast :: "child_process \<Rightarrow> int \<Rightarrow> js_error + string" where
  "executeExperiencedFast cp vuId =
     run_script cp (ExperiencedFastScript vuId (200 + vuId * 10) (vuId * 5) (vuId * 3))
       \<lparr>timeout = 8000, maxBuffer = None\<rparr>"

definition executeEmergencyRapid :: "child_process \<Rightarrow> int \<Rightarrow> js_error + string" where
  "executeEmergencyRapid cp vuId =
     run_script cp (EmergencyRapidScript vuId (vuId * 2) (vuId * 4))
       \<lparr>timeout = 6000, maxBuffer = None\<rparr>"

definition executeRoutineEditing :: "child_process \<Rightarrow> int \<Rightarrow> js_error + string" where
  "executeRoutineEditing cp vuId =
     run_script cp (RoutineEditingScript vuId (400 + vuId * 50) (vuId * 7))
       \<lparr>timeout = 10000, maxBuffer = None\<rparr>"

definition executeModeSwitching :: "child_process \<Rightarrow> int \<Rightarrow> js_error + string" where
  "executeModeSwitching cp vuId =
     run_script cp (ModeSwitchingScript vuId (vuId * 6) (vuId * 8))
       \<lparr>timeout = 8000, maxBuffer = None\<rparr>"

definition executeStandardWorkflow :: "child_process \<Rightarrow> int \<Rightarrow> js_error + string" where
  "executeStandardWorkflow cp vuId =
     run_script cp (StandardScript vuId (225 + vuId * 15) (vuId * 4) (vuId * 5))
       \<lparr>timeout = 5000, maxBuffer = None\<rparr>"

definition executeNewCautious :: "child_process \<Rightarrow> int \<Rightarrow> js_error + string" where
  "executeNewCautious cp vuId =
     run_script cp (NewCautiousScript vuId (vuId * 3) (vuId * 2))
       \<lparr>timeout = 8000, maxBuffer = None\<rparr>"

text \<open>
  \<open>executeWorkflow\<close>: the \<open>switch\<close> selects one of six functions by strict equality with
  the five names (\<open>switch_workflow\<close>; anything else, \<open>undefined\<close> included, is the default),
  the selected function is called (\<open>call_workflow\<close>), and the whole is wrapped in
  \<open>try\<close>/\<open>catch\<close>.
\<close>

datatype workflow_function =
    ExperiencedFast | NewCautious | EmergencyRapid | RoutineEditing | ModeSwitching
  | StandardWorkflow

definition switch_workflow :: "string option \<Rightarrow> workflow_function" where
  "switch_workflow workflow =
     (if workflow = Some ''experienced_fast'' then ExperiencedFast
      else if workflow = Some ''new_cautious'' then NewCautious
      else if workflow = Some ''emergency_rapid'' then EmergencyRapid
      else if workflow = Some ''routine_editing'' then RoutineEditing
      else if workflow = Some ''mode_switching'' then ModeSwitching
      else StandardWorkflow)"

fun call_workflow :: "child_process \<Rightarrow> workflow_function \<Rightarrow> int \<Rightarrow> js_error + string" where
  "call_workflow cp ExperiencedFast vuId = executeExperiencedFast cp vuId"
| "call_workflow cp NewCautious vuId = executeNewCautious cp vuId"
| "call_workflow cp EmergencyRapid vuId = executeEmergencyRapid cp vuId"
| "call_workflow cp RoutineEditing vuId = executeRoutineEditing cp vuId"
| "call_workflow cp ModeSwitching vuId = executeModeSwitching cp vuId"
| "call_workflow cp StandardWorkflow vuId = executeStandardWorkflow cp vuId"

definition executeWorkflow :: "child_process \<Rightarrow> string option \<Rightarrow> int \<Rightarrow> js_error + string" where
  "executeWorkflow cp workflow vuId =
     try_catch
       (call_workflow cp (switch_workflow workflow) vuId)
       (\<lambda>error. Inr (''ERROR_'' @ js_to_string workflow @ '': '' @ message error))"

definition concurrent_checks :: "(string \<times> (string \<Rightarrow> bool)) list" where
  "concurrent_checks =
     [(''No lethal conditions'', \<lambda>r. \<not> js_includes r ''LETHAL''),
      (''No overdose conditions'', \<lambda>r. \<not> js_includes r ''OVERDOSE''),
      (''No critical errors'', \<lambda>r. \<not> js_includes r ''CRITICAL_ERROR''),
      (''State consistency maintained'', \<lambda>r. \<not> js_includes r ''INCONSISTENT'')]"

definition race_detected :: "string \<Rightarrow> bool" where
  "race_detected result = (js_includes result ''RACE'' \<or> js_includes result ''CONFLICT'')"

text \<open>
  One iteration of the default function for the operator \<open>vuId\<close>, with the global
  \<open>raceConditionsDetected\<close> passed in and out: it returns the check samples and the
  counter. The closing random sleep has no effect on either.
\<close>

definition concurrent_default ::
  "child_process \<Rightarrow> int \<Rightarrow> nat \<Rightarrow> js_error + ((string \<times> bool) list \<times> nat)" where
  "concurrent_default cp vuId raceConditionsDetected =
     (let workflow = getWorkflowForOperator vuId
      in case executeWorkflow cp workflow vuId of
           Inl error \<Rightarrow> Inl error
         | Inr result \<Rightarrow>
             Inr (k6_check result concurrent_checks,
                  if race_detected result then raceConditionsDetected + 1
                  else raceConditionsDetected))"

section \<open>Fast operator typing test\<close>

text \<open>
  The simulations read the clock (\<open>new Date().getTime()\<close>, in milliseconds) and sleep
  (\<open>sleep(seconds)\<close>). The clock belongs to the runtime: a world \<open>'w\<close> with a reading and a
  sleep that moves the world on.
\<close>

record 'w clock =
  getTime :: "'w \<Rightarrow> int"
  sleep :: "rat \<Rightarrow> 'w \<Rightarrow> 'w"

definition simulateRapidModeChange :: "'w clock \<Rightarrow> 'w \<Rightarrow> string \<times> 'w" where
  "simulateRapidModeChange k w =
     (let startTime = getTime k w;
          w1 = sleep k (1 / 10) w;
          w2 = sleep k (1 / 20) w1;
          endTime = getTime k w2;
          duration = endTime - startTime
      in (if duration < 200 then ''LETHAL_OVERDOSE'' else ''SUCCESS'', w2))"

definition mode_change_checks :: "(string \<times> (string \<Rightarrow> bool)) list" where
  "mode_change_checks =
     [(''No lethal overdose in mode change'', \<lambda>r. \<not> js_includes r ''LETHAL''),
      (''No accidents in rapid typing'', \<lambda>r. \<not> js_includes r ''OVERDOSE'')]"

text \<open>The first scenario of the default function: the simulation, then its checks.\<close>

definition mode_change_scenario :: "'w clock \<Rightarrow> 'w \<Rightarrow> (string \<times> bool) list \<times> 'w" where
  "mode_change_scenario k w =
     (let (result, w') = simulateRapidModeChange k w
      in (k6_check result mode_change_checks, w'))"

text \<open>A clock that advances by exactly the time slept.\<close>

definition exact_clock :: "int clock" where
  "exact_clock = \<lparr>getTime = (\<lambda>w. w), sleep = (\<lambda>seconds w. w + \<lfloor>seconds * 1000\<rfloor>)\<rparr>"

section \<open>Properties of the overflow stress script\<close>

lemma run_patients_append:
  "run_patients cm st (xs @ ys) = run_patients cm (run_patients cm st xs) ys"
  by (induction xs arbitrary: st) simp_all

lemma overflow_detected_iteration:
  "overflow_detected (patient_iteration cm st p) =
     (overflow_detected st \<or>
      (setup_counter cm (snd (setup_treatment cm (200 + p mod 100) (p mod 50) (p mod 30)
          (c_module st))) = 0 \<and> p > 255))"
  by (auto simp add: patient_iteration_def Let_def split: prod.splits)

lemma c_module_iteration:
  "c_module (patient_iteration cm st p) =
     (let c1 = snd (setup_treatment cm (200 + p mod 100) (p mod 50) (p mod 30) (c_module st))
      in if setup_counter cm c1 = 0 \<and> p > 255
         then snd (setup_treatment cm 99999 0 0 c1) else c1)"
  by (auto simp add: patient_iteration_def Let_def split: prod.splits)

lemma critical_points_iteration:
  "critical_points (patient_iteration cm st p) =
     critical_points st @
     (let current_counter = setup_counter cm
            (snd (setup_treatment cm (200 + p mod 100) (p mod 50) (p mod 30) (c_module st)))
      in if current_counter \<in> set [253, 254, 255, 0, 1, 2] then [(p, current_counter)] else [])"
  by (auto simp add: patient_iteration_def Let_def split: prod.splits)

lemma safety_bypasses_iteration:
  "safety_bypasses (patient_iteration cm st p) =
     safety_bypasses st @
     (let c1 = snd (setup_treatment cm (200 + p mod 100) (p mod 50) (p mod 30) (c_module st));
          probe = setup_treatment cm 99999 0 0 c1
      in if setup_counter cm c1 = 0 \<and> p > 255 \<and> fst probe \<and> dose_value cm (snd probe) = 99999
         then [p] else [])"
  by (auto simp add: patient_iteration_def Let_def split: prod.splits)

lemma run_patients_quiet:
  assumes model: "\<forall>d x y s. setup_counter cm (snd (setup_treatment cm d x y s)) =
                    (setup_counter cm s + 1) mod 256"
  shows "0 \<le> setup_counter cm (c_module st) \<Longrightarrow>
         setup_counter cm (c_module st) + int (length ps) \<le> 255 \<Longrightarrow>
         setup_counter cm (c_module (run_patients cm st ps)) =
           setup_counter cm (c_module st) + int (length ps) \<and>
         overflow_detected (run_patients cm st ps) = overflow_detected st \<and>
         safety_bypasses (run_patients cm st ps) = safety_bypasses st"
proof (induction ps arbitrary: st)
  case Nil
  then show ?case by simp
next
  case (Cons p ps)
  let ?k = "setup_counter cm (c_module st)"
  let ?c1 = "snd (setup_treatment cm (200 + p mod 100) (p mod 50) (p mod 30) (c_module st))"
  let ?st = "patient_iteration cm st p"
  from Cons.prems have small: "?k + 1 \<le> 255" by simp
  have read: "setup_counter cm ?c1 = ?k + 1"
    using model Cons.prems(1) small by simp
  have nz: "setup_counter cm ?c1 \<noteq> 0"
    using read Cons.prems(1) by simp
  have m: "c_module ?st = ?c1"
    using nz by (simp add: c_module_iteration Let_def)
  have o: "overflow_detected ?st = overflow_detected st"
    using nz by (simp add: overflow_detected_iteration)
  have b: "safety_bypasses ?st = safety_bypasses st"
    using nz by (simp add: safety_bypasses_iteration Let_def)
  have k': "setup_counter cm (c_module ?st) = ?k + 1"
    using m read by simp
  have "0 \<le> setup_counter cm (c_module ?st)"
    using k' Cons.prems(1) by simp
  moreover have "setup_counter cm (c_module ?st) + int (length ps) \<le> 255"
    using k' Cons.prems(2) by simp
  ultimately have
    "setup_counter cm (c_module (run_patients cm ?st ps)) =
       setup_counter cm (c_module ?st) + int (length ps) \<and>
     overflow_detected (run_patients cm ?st ps) = overflow_detected ?st \<and>
     safety_bypasses (run_patients cm ?st ps) = safety_bypasses ?st"
    by (rule Cons.IH)
  then show ?case
    using k' o b by simp
qed


lemma startsWith_append: "startsWith (k @ b) k"
  by (induction k) simp_all

lemma startsWith_iff: "startsWith s k \<longleftrightarrow> (\<exists>b. s = k @ b)"
proof (induction s k rule: startsWith.induct)
  case (1 s)
  then show ?case by simp
next
  case (2 k ks)
  then show ?case by simp
next
  case (3 c cs k ks)
  then show ?case by auto
qed

lemma js_includes_iff: "js_includes s k \<longleftrightarrow> (\<exists>a b. s = a @ k @ b)"
proof (induction s)
  case Nil
  then show ?case by auto
next
  case (Cons c cs)
  show ?case
  proof
    assume "js_includes (c # cs) k"
    then consider "startsWith (c # cs) k" | "js_includes cs k" by auto
    then show "\<exists>a b. c # cs = a @ k @ b"
    proof cases
      case 1
      then obtain b where "c # cs = k @ b" by (auto simp: startsWith_iff)
      then have "c # cs = [] @ k @ b" by simp
      then show ?thesis by blast
    next
      case 2
      then obtain a b where "cs = a @ k @ b" using Cons.IH by auto
      then have "c # cs = (c # a) @ k @ b" by simp
      then show ?thesis by blast
    qed
  next
    assume "\<exists>a b. c # cs = a @ k @ b"
    then obtain a b where ab: "c # cs = a @ k @ b" by auto
    show "js_includes (c # cs) k"
    proof (cases a)
      case Nil
      then have "startsWith (c # cs) k" using ab by (auto simp: startsWith_iff)
      then show ?thesis by simp
    next
      case (Cons a1 as)
      then have "cs = as @ k @ b" using ab by simp
      then have "js_includes cs k" using Cons.IH by auto
      then show ?thesis by simp
    qed
  qed
qed

lemma js_includes_append: "js_includes (a @ k @ b) k"
  by (auto simp: js_includes_iff)

lemma js_includes_join: "p \<in> set parts \<Longrightarrow> js_includes (join sep parts) p"
proof (induction sep parts rule: join.induct)
  case (1 sep)
  then show ?case by simp
next
  case (2 sep q)
  then have "join sep [q] = [] @ p @ []" by simp
  then show ?case by (metis js_includes_append)
next
  case (3 sep q r rs)
  show ?case
  proof (cases "p = q")
    case True
    then have "join sep (q # r # rs) = [] @ p @ (sep @ join sep (r # rs))" by simp
    then show ?thesis by (metis js_includes_append)
  next
    case False
    then have "p \<in> set (r # rs)" using "3.prems" by simp
    then have "js_includes (join sep (r # rs)) p" by (rule "3.IH")
    then obtain a b where "join sep (r # rs) = a @ p @ b"
      by (auto simp: js_includes_iff)
    then have "join sep (q # r # rs) = (q @ sep @ a) @ p @ b" by simp
    then show ?thesis by (metis js_includes_append)
  qed
qed

lemma counter_reads_append:
  "counter_reads cm (c_module st) (xs @ ys) =
     counter_reads cm (c_module st) xs @
     counter_reads cm (c_module (run_patients cm st xs)) ys"
proof (induction xs arbitrary: st)
  case Nil
  then show ?case by simp
next
  case (Cons p ps)
  have "counter_reads cm (c_module (patient_iteration cm st p)) (ps @ ys) =
          counter_reads cm (c_module (patient_iteration cm st p)) ps @
          counter_reads cm (c_module (run_patients cm (patient_iteration cm st p) ps)) ys"
    by (rule Cons.IH)
  then show ?case
    by (simp add: c_module_iteration Let_def)
qed

lemma counter_reads_quiet:
  assumes model: "\<forall>d x y s. setup_counter cm (snd (setup_treatment cm d x y s)) =
                    (setup_counter cm s + 1) mod 256"
  shows "0 \<le> setup_counter cm c \<Longrightarrow> setup_counter cm c + int (length ps) \<le> 255 \<Longrightarrow>
         map snd (counter_reads cm c ps) =
           [setup_counter cm c + 1 .. setup_counter cm c + int (length ps)]"
proof (induction ps arbitrary: c)
  case Nil
  then show ?case by simp
next
  case (Cons p ps)
  let ?k = "setup_counter cm c"
  let ?c1 = "snd (setup_treatment cm (200 + p mod 100) (p mod 50) (p mod 30) c)"
  have read: "setup_counter cm ?c1 = ?k + 1"
    using model Cons.prems by simp
  have nz: "setup_counter cm ?c1 \<noteq> 0"
    using read Cons.prems(1) by simp
  have "map snd (counter_reads cm ?c1 ps) =
          [setup_counter cm ?c1 + 1 .. setup_counter cm ?c1 + int (length ps)]"
    using Cons.prems read by (intro Cons.IH) simp_all
  then have tl: "map snd (counter_reads cm ?c1 ps) = [?k + 2 .. ?k + 1 + int (length ps)]"
    using read by (simp add: add.commute add.left_commute)
  have "[?k + 1 .. ?k + int (length (p # ps))] = (?k + 1) # [?k + 2 .. ?k + 1 + int (length ps)]"
    by (subst upto_rec1) (simp_all add: add.commute add.left_commute)
  then show ?case
    using nz read tl by (simp add: Let_def)
qed

lemma upto_255_256: "[1..256] = [1..255] @ [256::int]"
  by (subst upto_rec2) simp_all

lemma upto_300_split: "[1..300] = [1..255] @ [256::int] @ [257..300]"
  using upto_split3 [of 1 256 300] by simp

lemma repeat_setup_counter:
  assumes model: "\<forall>d x y s. setup_counter cm (snd (setup_treatment cm d x y s)) =
                    (setup_counter cm s + 1) mod 256"
  shows "0 < n \<Longrightarrow>
         setup_counter cm (repeat_setup cm n c) = (setup_counter cm c + int n) mod 256"
proof (induction n arbitrary: c)
  case 0
  then show ?case by simp
next
  case (Suc n)
  let ?c1 = "snd (setup_treatment cm 100 0 0 c)"
  have first: "setup_counter cm ?c1 = (setup_counter cm c + 1) mod 256"
    using model by simp
  show ?case
  proof (cases "n = 0")
    case True
    then show ?thesis using first by simp
  next
    case False
    then have "setup_counter cm (repeat_setup cm n ?c1) =
                 (setup_counter cm ?c1 + int n) mod 256"
      using Suc.IH [of ?c1] by simp
    then have "setup_counter cm (repeat_setup cm (Suc n) c) =
                 ((setup_counter cm c + 1) mod 256 + int n) mod 256"
      using first by simp
    also have "\<dots> = (setup_counter cm c + int (Suc n)) mod 256"
      by (simp add: mod_simps ac_simps)
    finally show ?thesis .
  qed
qed

text \<open>
  Claim C1. Under the 8-bit counter model (every setup advances the counter by one modulo
  256) and a fresh module (counter 0), the driver reads the counter values 1 to 255 in its
  first 255 passes, the module's counter is 255 after them and \<open>overflow_detected\<close> is
  still false; the 256th pass reads 0 and sets \<open>overflow_detected\<close>, which stays set to
  the end of the run and puts \<open>OVERFLOW_DETECTED\<close> into the result line. In every pass,
  \<open>overflow_detected\<close> becomes true exactly when the counter read is 0 and the patient
  number exceeds 255. In the specific scenarios likewise, the counter is 255 after 255
  setups and 0 after 256; the three scenarios report the counters 255, 1 and 1, the
  second one reading the counter only after its 257th setup.
\<close>

theorem overflow_driver_wraps_after_256_setups:
  assumes model: "\<forall>d x y s. setup_counter cm (snd (setup_treatment cm d x y s)) =
                    (setup_counter cm s + 1) mod 256"
      and fresh: "setup_counter cm c = 0"
  shows "setup_counter cm (repeat_setup cm 255 c) = 255 \<and>
         setup_counter cm (repeat_setup cm 256 c) = 0 \<and>
         map (\<lambda>scenario. fst (snd scenario)) (specific_scenarios cm c) = [255, 1, 1] \<and>
         map snd (counter_reads cm c [1..255]) = [1..255] \<and>
         setup_counter cm (c_module (run_patients cm (initial_state c) [1..255])) = 255 \<and>
         \<not> overflow_detected (run_patients cm (initial_state c) [1..255]) \<and>
         map snd (counter_reads cm c [1..256]) = [1..255] @ [0] \<and>
         overflow_detected (run_patients cm (initial_state c) [1..256]) \<and>
         overflow_detected (overflow_loop cm c) \<and>
         js_includes (result_line cm c) ''OVERFLOW_DETECTED'' \<and>
         (\<forall>st p. overflow_detected (patient_iteration cm st p) =
            (overflow_detected st \<or>
             (setup_counter cm (snd (setup_treatment cm (200 + p mod 100) (p mod 50)
                (p mod 30) (c_module st))) = 0 \<and> p > 255)))"
proof -
  let ?s0 = "initial_state c"
  let ?s255 = "run_patients cm ?s0 [1..255]"
  let ?s256 = "run_patients cm ?s0 [1..256]"
  have c0: "setup_counter cm (c_module ?s0) = 0"
    using fresh by (simp add: initial_state_def)
  have len: "length [1..255::int] = 255" by simp
  have q: "setup_counter cm (c_module ?s255) = setup_counter cm (c_module ?s0) + int (length [1..255::int]) \<and>
           overflow_detected ?s255 = overflow_detected ?s0 \<and>
           safety_bypasses ?s255 = safety_bypasses ?s0"
    using c0 by (intro run_patients_quiet [OF model]) simp_all
  have k255: "setup_counter cm (c_module ?s255) = 255"
    using q c0 by simp
  have o255: "\<not> overflow_detected ?s255"
    using q by (simp add: initial_state_def)
  have r255: "map snd (counter_reads cm c [1..255]) = [1..255]"
    using counter_reads_quiet [OF model, of c "[1..255]"] fresh by simp
  let ?c256 = "snd (setup_treatment cm (200 + 256 mod 100) (256 mod 50) (256 mod 30) (c_module ?s255))"
  have k256: "setup_counter cm ?c256 = 0"
    using model k255 by simp
  have s256: "?s256 = patient_iteration cm ?s255 256"
    by (simp add: upto_255_256 run_patients_append)
  have o256: "overflow_detected ?s256"
    using k256 by (simp add: s256 overflow_detected_iteration)
  have "counter_reads cm (c_module ?s0) ([1..255] @ [256]) =
          counter_reads cm (c_module ?s0) [1..255] @ counter_reads cm (c_module ?s255) [256]"
    by (rule counter_reads_append)
  then have "map snd (counter_reads cm c [1..256]) =
          map snd (counter_reads cm c [1..255]) @ map snd (counter_reads cm (c_module ?s255) [256])"
    by (simp add: upto_255_256 initial_state_def)
  then have r256: "map snd (counter_reads cm c [1..256]) = [1..255] @ [0]"
    using r255 k256 by (simp add: Let_def)
  have mono: "overflow_detected st \<Longrightarrow> overflow_detected (run_patients cm st ps)" for st ps
    by (induction ps arbitrary: st) (simp_all add: overflow_detected_iteration)
  have loop: "overflow_loop cm c = run_patients cm ?s256 [257..300]"
    by (simp add: overflow_loop_def upto_300_split upto_255_256 run_patients_append
          del: upto_rec_numeral)
  have ofin: "overflow_detected (overflow_loop cm c)"
    unfolding loop by (rule mono [OF o256])
  have "''OVERFLOW_DETECTED'' \<in> set (result_parts (overflow_loop cm c))"
    using ofin by (simp add: result_parts_def)
  then have tok: "js_includes (result_line cm c) ''OVERFLOW_DETECTED''"
    unfolding result_line_def by (rule js_includes_join)
  have n255: "setup_counter cm (repeat_setup cm 255 c) = 255"
    using repeat_setup_counter [OF model, of 255 c] fresh by simp
  have n256: "setup_counter cm (repeat_setup cm 256 c) = 0"
    using repeat_setup_counter [OF model, of 256 c] fresh by simp
  have n257: "setup_counter cm (repeat_setup cm 257 c) = 1"
    using repeat_setup_counter [OF model, of 257 c] fresh by simp
  have invalid: "setup_counter cm (snd (setup_treatment cm 50000 0 0 (repeat_setup cm 256 c))) = 1"
    using model n256 by simp
  have scenarios: "map (\<lambda>scenario. fst (snd scenario)) (specific_scenarios cm c) = [255, 1, 1]"
    using n255 n257 invalid
    by (simp add: specific_scenarios_def Let_def split: prod.splits) (metis snd_conv)
  show ?thesis
    using n255 n256 scenarios r255 k255 o255 r256 o256 ofin tok
      overflow_detected_iteration [of cm]
    by blast
qed


lemma counter8_model:
  "\<forall>d x y s. setup_counter counter8_module (snd (setup_treatment counter8_module d x y s)) =
      (setup_counter counter8_module s + 1) mod 256"
  by (simp add: counter8_module_def uint_word_ariths)

lemma counter8_fresh: "setup_counter counter8_module counter8_init = 0"
  by (simp add: counter8_module_def counter8_init_def)

theorem overflow_driver_wraps_after_256_setups_witness:
  "setup_counter counter8_module (repeat_setup counter8_module 256 counter8_init) = 0 \<and>
   map snd (counter_reads counter8_module counter8_init [1..255]) = [1..255] \<and>
   \<not> overflow_detected (run_patients counter8_module (initial_state counter8_init) [1..255]) \<and>
   map snd (counter_reads counter8_module counter8_init [1..256]) = [1..255] @ [0] \<and>
   overflow_detected (run_patients counter8_module (initial_state counter8_init) [1..256]) \<and>
   overflow_detected (overflow_loop counter8_module counter8_init)"
  using overflow_driver_wraps_after_256_setups [OF counter8_model counter8_fresh] by blast

lemma pre_wrap_state:
  assumes model: "\<forall>d x y s. setup_counter cm (snd (setup_treatment cm d x y s)) =
                    (setup_counter cm s + 1) mod 256"
      and fresh: "setup_counter cm c = 0"
  shows "setup_counter cm (c_module (run_patients cm (initial_state c) [1..255])) = 255 \<and>
         safety_bypasses (run_patients cm (initial_state c) [1..255]) = []"
proof -
  let ?s0 = "initial_state c"
  let ?s255 = "run_patients cm ?s0 [1..255]"
  have c0: "setup_counter cm (c_module ?s0) = 0"
    using fresh by (simp add: initial_state_def)
  have "setup_counter cm (c_module ?s255) =
          setup_counter cm (c_module ?s0) + int (length [1..255::int]) \<and>
        overflow_detected ?s255 = overflow_detected ?s0 \<and>
        safety_bypasses ?s255 = safety_bypasses ?s0"
    using c0 by (intro run_patients_quiet [OF model]) simp_all
  then show ?thesis
    using c0 by (simp add: initial_state_def)
qed

lemma overflow_loop_split:
  "overflow_loop cm c =
     run_patients cm (patient_iteration cm (run_patients cm (initial_state c) [1..255]) 256)
       [257..300]"
  by (simp add: overflow_loop_def upto_300_split run_patients_append del: upto_rec_numeral)

text \<open>
  Claim C2. In a pass that reads counter 0 for a patient number above 255, the script
  calls \<open>setup_treatment(99999, 0, 0)\<close> on the module as the pass's own setup left it,
  and adds the patient to \<open>safety_bypasses\<close> exactly when that call returned a true value
  and the module's \<open>dose_value\<close> is then 99999; in any other pass it makes no such call
  and \<open>safety_bypasses\<close> is unchanged. Under the 8-bit counter model this happens once in
  the run, in pass 256: the module after that pass is the one the extra setup left, and
  at the end of the run \<open>safety_bypasses\<close> is non-empty (the bypass is reported) if and
  only if that one call was accepted and left the dose at 99999.
\<close>

theorem probe_follows_wraparound:
  assumes model: "\<forall>d x y s. setup_counter cm (snd (setup_treatment cm d x y s)) =
                    (setup_counter cm s + 1) mod 256"
      and fresh: "setup_counter cm c = 0"
  shows "(\<forall>st p.
            (let c1 = snd (setup_treatment cm (200 + p mod 100) (p mod 50) (p mod 30)
                        (c_module st));
                 probe = setup_treatment cm 99999 0 0 c1
             in if setup_counter cm c1 = 0 \<and> p > 255
                then c_module (patient_iteration cm st p) = snd probe \<and>
                     safety_bypasses (patient_iteration cm st p) =
                       safety_bypasses st @
                       (if fst probe \<and> dose_value cm (snd probe) = 99999 then [p] else [])
                else c_module (patient_iteration cm st p) = c1 \<and>
                     safety_bypasses (patient_iteration cm st p) = safety_bypasses st)) \<and>
         (let s255 = run_patients cm (initial_state c) [1..255];
              c256 = snd (setup_treatment cm (200 + 256 mod 100) (256 mod 50) (256 mod 30)
                       (c_module s255));
              probe = setup_treatment cm 99999 0 0 c256
          in setup_counter cm c256 = 0 \<and>
             c_module (run_patients cm (initial_state c) [1..256]) = snd probe \<and>
             safety_bypasses (overflow_loop cm c) =
               (if fst probe \<and> dose_value cm (snd probe) = 99999 then [256] else []) \<and>
             (safety_bypasses (overflow_loop cm c) \<noteq> [] \<longleftrightarrow>
                fst probe \<and> dose_value cm (snd probe) = 99999))"
    (is "?step \<and> ?run")
proof -
  let ?s255 = "run_patients cm (initial_state c) [1..255]"
  let ?c256 = "snd (setup_treatment cm (200 + 256 mod 100) (256 mod 50) (256 mod 30)
                 (c_module ?s255))"
  let ?probe = "setup_treatment cm 99999 0 0 ?c256"
  let ?s256 = "patient_iteration cm ?s255 256"
  have step: ?step
    by (simp add: c_module_iteration safety_bypasses_iteration Let_def)
  have pre: "setup_counter cm (c_module ?s255) = 255" "safety_bypasses ?s255 = []"
    using pre_wrap_state [OF model fresh] by simp_all
  have k256: "setup_counter cm ?c256 = 0"
    using model pre(1) by simp
  have m256: "c_module ?s256 = snd ?probe"
    using k256 by (simp add: c_module_iteration Let_def)
  have b256: "safety_bypasses ?s256 =
                (if fst ?probe \<and> dose_value cm (snd ?probe) = 99999 then [256] else [])"
    using k256 pre(2) by (simp add: safety_bypasses_iteration Let_def)
  have s256: "run_patients cm (initial_state c) [1..256] = ?s256"
    by (simp add: upto_255_256 run_patients_append)
  have k257: "setup_counter cm (c_module ?s256) = 1"
    using model k256 m256 by simp
  have len: "length [257..300::int] = 44"
    by (simp del: upto_rec_numeral)
  have "setup_counter cm (c_module (run_patients cm ?s256 [257..300])) =
          setup_counter cm (c_module ?s256) + int (length [257..300::int]) \<and>
        overflow_detected (run_patients cm ?s256 [257..300]) = overflow_detected ?s256 \<and>
        safety_bypasses (run_patients cm ?s256 [257..300]) = safety_bypasses ?s256"
    using k257 len by (intro run_patients_quiet [OF model]) simp_all
  then have bfin: "safety_bypasses (overflow_loop cm c) = safety_bypasses ?s256"
    by (simp only: overflow_loop_split)
  have run: ?run
    unfolding Let_def using k256 m256 b256 bfin s256 by simp
  show ?thesis
    using step run by (rule conjI)
qed

theorem probe_follows_wraparound_witness:
  "safety_bypasses (overflow_loop counter8_module counter8_init) = [256] \<and>
   dose_value counter8_module
     (c_module (run_patients counter8_module (initial_state counter8_init) [1..256])) = 99999"
  using probe_follows_wraparound [OF counter8_model counter8_fresh]
  by (simp add: Let_def counter8_module_def)

text \<open>
  Claim C6 does not hold of the script. On the target with the 8-bit counter the run makes
  301 setups, the 300 of the passes and the extra one of pass 256. Eight of them leave the
  counter in the window 253, 254, 255, 0, 1, 2: the values 1, 2, 253, 254, 255, 0, 1, 2 in
  this order. The script records seven points: it reads the counter once in a pass,
  before the extra setup, so the value 1 that the extra setup leaves after the wraparound
  is never read and the list goes from (256, 0) to (257, 2). The log changes nothing in
  what the script records.
\<close>

theorem critical_points_omit_counter_after_probe:
  "length (snd (c_module (overflow_loop (logged counter8_module) (counter8_init, [])))) = 301 \<and>
   filter (\<lambda>v. v \<in> set [253, 254, 255, 0, 1, 2])
     (snd (c_module (overflow_loop (logged counter8_module) (counter8_init, [])))) =
     [1, 2, 253, 254, 255, 0, 1, 2] \<and>
   critical_points (overflow_loop (logged counter8_module) (counter8_init, [])) =
     [(1, 1), (2, 2), (253, 253), (254, 254), (255, 255), (256, 0), (257, 2)] \<and>
   critical_points (overflow_loop counter8_module counter8_init) =
     [(1, 1), (2, 2), (253, 253), (254, 254), (255, 255), (256, 0), (257, 2)]"
proof -
  have operations:
    "length (snd (c_module (overflow_loop (logged counter8_module) (counter8_init, [])))) = 301"
    by code_simp
  have in_window:
    "filter (\<lambda>v. v \<in> set [253, 254, 255, 0, 1, 2])
       (snd (c_module (overflow_loop (logged counter8_module) (counter8_init, [])))) =
     [1, 2, 253, 254, 255, 0, 1, 2]"
    by code_simp
  have recorded_logged:
    "critical_points (overflow_loop (logged counter8_module) (counter8_init, [])) =
     [(1, 1), (2, 2), (253, 253), (254, 254), (255, 255), (256, 0), (257, 2)]"
    by code_simp
  have recorded:
    "critical_points (overflow_loop counter8_module counter8_init) =
     [(1, 1), (2, 2), (253, 253), (254, 254), (255, 255), (256, 0), (257, 2)]"
    by code_simp
  show ?thesis
    using operations in_window recorded_logged recorded by (intro conjI)
qed

section \<open>Properties of the concurrent operations test\<close>

lemma getWorkflowForOperator_nonneg:
  assumes "0 \<le> vuId"
  shows "getWorkflowForOperator vuId = Some (workflows ! nat (vuId mod 5))"
proof -
  have "sgn vuId * (\<bar>vuId\<bar> mod 5) = vuId mod 5"
    using assms by (cases "vuId = 0") simp_all
  moreover have "0 \<le> vuId mod 5" "vuId mod 5 < 5"
    by simp_all
  ultimately show ?thesis
    by (simp add: getWorkflowForOperator_def js_rem_def js_index_def workflows_def)
qed

lemma mod5_cases:
  fixes vuId :: int
  shows "vuId mod 5 = 0 \<or> vuId mod 5 = 1 \<or> vuId mod 5 = 2 \<or> vuId mod 5 = 3 \<or>
         vuId mod 5 = 4"
proof -
  have "0 \<le> vuId mod 5" "vuId mod 5 < 5" by simp_all
  then show ?thesis by arith
qed







text \<open>
  Claim C4. For every non-negative operator id, \<open>getWorkflowForOperator\<close> returns the
  entry of the catalogue at the id modulo the catalogue's length, an index inside the
  catalogue; being a function of the id and the fixed catalogue, it returns the same
  name for the same id.
\<close>

theorem workflow_dispatch_by_modulus:
  "0 \<le> vuId \<Longrightarrow>
     getWorkflowForOperator vuId = Some (workflows ! (nat vuId mod length workflows)) \<and>
     nat vuId mod length workflows < length workflows"
proof -
  assume nonneg: "0 \<le> vuId"
  have len: "length workflows = 5"
    by (simp add: workflows_def)
  have "nat (vuId mod 5) = nat vuId mod 5"
    using nonneg by (simp add: nat_mod_distrib)
  then show ?thesis
    using getWorkflowForOperator_nonneg [OF nonneg] len by simp
qed

theorem workflow_dispatch_by_modulus_witness:
  "getWorkflowForOperator 7 = Some ''emergency_rapid'' \<and>
   getWorkflowForOperator 5 = Some ''experienced_fast''"
  using workflow_dispatch_by_modulus [of 7] workflow_dispatch_by_modulus [of 5]
  by (simp add: workflows_def)

text \<open>
  Claim C5. \<open>executeWorkflow\<close> always returns a token and never throws: when the selected
  workflow function throws an error, the token is \<open>ERROR_\<close>, the workflow's name, a colon
  and the error's message, which contains the marker ERROR; otherwise it is the
  function's own token. \<open>performOverflowTest\<close> likewise always returns a token, which is
  \<open>ERROR: \<close> and the message when running the script throws. Hence an iteration of the
  concurrent test never throws either.
\<close>

theorem workflow_errors_become_tokens:
  "(\<exists>token. executeWorkflow cp workflow vuId = Inr token) \<and>
   (call_workflow cp (switch_workflow workflow) vuId = Inl error \<longrightarrow>
      executeWorkflow cp workflow vuId =
        Inr (''ERROR_'' @ js_to_string workflow @ '': '' @ message error) \<and>
      js_includes (''ERROR_'' @ js_to_string workflow @ '': '' @ message error) ''ERROR'') \<and>
   (call_workflow cp (switch_workflow workflow) vuId = Inr token \<longrightarrow>
      executeWorkflow cp workflow vuId = Inr token) \<and>
   (\<exists>token. performOverflowTest cp = Inr token) \<and>
   (run_script cp OverflowTestScript \<lparr>timeout = 120000, maxBuffer = Some (1024 * 1024)\<rparr> =
      Inl error \<longrightarrow>
      performOverflowTest cp = Inr (''ERROR: '' @ message error) \<and>
      js_includes (''ERROR: '' @ message error) ''ERROR'') \<and>
   (\<exists>outcome. concurrent_default cp vuId raceConditionsDetected = Inr outcome)"
proof -
  have marker: "js_includes (''ERROR'' @ rest) ''ERROR''" for rest
    using js_includes_append [of "[]" "''ERROR''" rest] by simp
  have returns: "\<exists>token. executeWorkflow cp w v = Inr token" for w v
    by (cases "call_workflow cp (switch_workflow w) v")
       (simp_all add: executeWorkflow_def try_catch_def)
  have caught: "call_workflow cp (switch_workflow workflow) vuId = Inl error \<longrightarrow>
      executeWorkflow cp workflow vuId =
        Inr (''ERROR_'' @ js_to_string workflow @ '': '' @ message error) \<and>
      js_includes (''ERROR_'' @ js_to_string workflow @ '': '' @ message error) ''ERROR''"
    using marker [of "''_'' @ js_to_string workflow @ '': '' @ message error"]
    by (simp add: executeWorkflow_def try_catch_def)
  have passed: "call_workflow cp (switch_workflow workflow) vuId = Inr token \<longrightarrow>
      executeWorkflow cp workflow vuId = Inr token"
    by (simp add: executeWorkflow_def try_catch_def)
  have overflow_returns: "\<exists>token. performOverflowTest cp = Inr token"
    by (cases "run_script cp OverflowTestScript
                 \<lparr>timeout = 120000, maxBuffer = Some (1024 * 1024)\<rparr>")
       (simp_all add: performOverflowTest_def try_catch_def)
  have overflow_caught:
    "run_script cp OverflowTestScript \<lparr>timeout = 120000, maxBuffer = Some (1024 * 1024)\<rparr> =
       Inl error \<longrightarrow>
     performOverflowTest cp = Inr (''ERROR: '' @ message error) \<and>
     js_includes (''ERROR: '' @ message error) ''ERROR''"
    using marker [of "'': '' @ message error"]
    by (simp add: performOverflowTest_def try_catch_def)
  obtain result where "executeWorkflow cp (getWorkflowForOperator vuId) vuId = Inr result"
    using returns by blast
  then have iteration: "\<exists>outcome. concurrent_default cp vuId raceConditionsDetected = Inr outcome"
    by (simp add: concurrent_default_def Let_def)
  show ?thesis
    using returns caught passed overflow_returns overflow_caught iteration by blast
qed

theorem workflow_errors_become_tokens_witness:
  "executeWorkflow (Inl (Error ''Cannot find module'')) (Some ''new_cautious'') 2 =
     Inr ''ERROR_new_cautious: Cannot find module'' \<and>
   performOverflowTest (Inl (Error ''Cannot find module'')) =
     Inr ''ERROR: Cannot find module''"
  using workflow_errors_become_tokens
    [of "Inl (Error ''Cannot find module'')" "Some ''new_cautious''" 2
        "Error ''Cannot find module''" "[]" 0]
  by (simp add: switch_workflow_def executeNewCautious_def run_script_def js_to_string_def)

text \<open>
  Claim C10. For every non-negative operator id, \<open>getWorkflowForOperator\<close> returns one of
  the five names of its catalogue, the \<open>switch\<close> of \<open>executeWorkflow\<close> then selects the
  function of that name and never the default \<open>executeStandardWorkflow\<close>, so the
  iteration runs one of the five catalogued workflows.
\<close>

theorem dispatch_never_reaches_default:
  "0 \<le> vuId \<Longrightarrow>
     (\<exists>w. getWorkflowForOperator vuId = Some w \<and> w \<in> set workflows) \<and>
     switch_workflow (getWorkflowForOperator vuId) \<noteq> StandardWorkflow \<and>
     switch_workflow (getWorkflowForOperator vuId) =
       [ExperiencedFast, NewCautious, EmergencyRapid, RoutineEditing, ModeSwitching] !
         (nat vuId mod 5) \<and>
     executeWorkflow cp (getWorkflowForOperator vuId) vuId =
       try_catch
         (([executeExperiencedFast, executeNewCautious, executeEmergencyRapid,
            executeRoutineEditing, executeModeSwitching] ! (nat vuId mod 5)) cp vuId)
         (\<lambda>error. Inr (''ERROR_'' @ workflows ! (nat vuId mod 5) @ '': '' @ message error))"
proof -
  assume nonneg: "0 \<le> vuId"
  have w: "getWorkflowForOperator vuId = Some (workflows ! nat (vuId mod 5))"
    using nonneg by (rule getWorkflowForOperator_nonneg)
  have idx: "nat vuId mod 5 = nat (vuId mod 5)"
    using nonneg by (simp add: nat_mod_distrib)
  show ?thesis
    using mod5_cases [of vuId]
    by (elim disjE)
       (simp_all add: w idx workflows_def switch_workflow_def executeWorkflow_def
          js_to_string_def)
qed

theorem dispatch_never_reaches_default_witness:
  "getWorkflowForOperator 8 = Some ''routine_editing'' \<and>
   switch_workflow (getWorkflowForOperator 8) = RoutineEditing"
  using dispatch_never_reaches_default [of 8 "Inl (Error [])"]
  by (simp add: getWorkflowForOperator_def js_rem_def js_index_def workflows_def
        switch_workflow_def)

section \<open>Properties of the overflow summary\<close>




section \<open>Properties of the fast typing test\<close>

text \<open>
  Claim C9. \<open>simulateRapidModeChange\<close> returns \<open>LETHAL_OVERDOSE\<close> or \<open>SUCCESS\<close>, and
  \<open>LETHAL_OVERDOSE\<close> exactly when the time it measures itself, the clock after its two
  sleeps minus the clock before them, is below 200 ms. The token is a function of the
  clock alone; no target is consulted. In the scenario, the checks
  \<open>No lethal overdose in mode change\<close> and \<open>No accidents in rapid typing\<close> both fail
  exactly when that time is below 200 ms.
\<close>

theorem rapid_mode_change_token_from_timing:
  "(let elapsed = getTime k (sleep k (1 / 20) (sleep k (1 / 10) w)) - getTime k w
    in (fst (simulateRapidModeChange k w) = ''LETHAL_OVERDOSE'' \<or>
        fst (simulateRapidModeChange k w) = ''SUCCESS'') \<and>
       (fst (simulateRapidModeChange k w) = ''LETHAL_OVERDOSE'' \<longleftrightarrow> elapsed < 200) \<and>
       snd (simulateRapidModeChange k w) = sleep k (1 / 20) (sleep k (1 / 10) w) \<and>
       fst (mode_change_scenario k w) =
         [(''No lethal overdose in mode change'', \<not> elapsed < 200),
          (''No accidents in rapid typing'', \<not> elapsed < 200)])"
  by (simp add: simulateRapidModeChange_def mode_change_scenario_def k6_check_def
        mode_change_checks_def Let_def)

theorem rapid_mode_change_token_from_timing_witness:
  "fst (simulateRapidModeChange exact_clock 0) = ''LETHAL_OVERDOSE'' \<and>
   fst (mode_change_scenario exact_clock 0) =
     [(''No lethal overdose in mode change'', False),
      (''No accidents in rapid typing'', False)]"
  using rapid_mode_change_token_from_timing [of exact_clock 0]
  by (simp add: Let_def exact_clock_def)

end
